theory Spec2Isabelle
  imports Complex_Main
begin

section \<open>Life Under Inflation: the decision engine of \<^verbatim>\<open>src/script.js\<close>\<close>

text \<open>
  The engine of \<^verbatim>\<open>src/script.js\<close> (\<^verbatim>\<open>algo.js\<close> holds the same functions with the run
  counts as module constants) is embedded as follows.

  \<^item> A JavaScript number that is a field of a finance state is a \<open>real\<close>: rounding, signed
    zero and overflow of the double format are not modelled. The numbers a forecast
    returns come out of a division whose divisor can be zero, so they are \<open>jsnum\<close>s, which
    add the three special values of the double format.
  \<^item> An object is a cell of a store (a list of objects, a reference is an index); the
    functions that take \<^verbatim>\<open>simState\<close> and assign to its fields become functions on the object
    (\<open>applyAction\<close>, \<open>updateEconomy\<close>) and their lifting to the cell a reference names
    (\<open>applyAction_at\<close>, \<open>updateEconomy_at\<close>).
  \<^item> \<^verbatim>\<open>randomNormal\<close> draws from \<^verbatim>\<open>Math.random\<close>; it is a parameter of the embedding, a
    function from the mean, the deviation and the generator's state to the sample and the
    next state. Every theorem holds for every such sampler.
  \<^item> An action is a JavaScript string or \<^verbatim>\<open>null\<close>: a \<open>string option\<close>.
  \<^item> \<^verbatim>\<open>MONTE_CARLO_RUNS\<close> is a JavaScript number, a \<open>real\<close>, whole or not: the loop of the
    forecast compares its counter with it and the result divides by it. The bounds of the
    other two \<^verbatim>\<open>for\<close> loops (\<^verbatim>\<open>FORECAST_MONTHS\<close>, \<^verbatim>\<open>months\<close>) are counts, natural
    numbers, zero included, and those loops are recursions on the number of iterations
    left.
  \<^item> The source has no \<^verbatim>\<open>throw\<close> and no \<^verbatim>\<open>try\<close>: every function returns, so the functions
    of the embedding are total and have no error result.
\<close>

subsection \<open>Numbers with the special values of the double format\<close>

datatype jsnum = Num real | PosInf | NegInf | NaN

fun js_add :: "jsnum \<Rightarrow> jsnum \<Rightarrow> jsnum" where
  "js_add NaN _ = NaN"
| "js_add _ NaN = NaN"
| "js_add (Num x) (Num y) = Num (x + y)"
| "js_add PosInf NegInf = NaN"
| "js_add NegInf PosInf = NaN"
| "js_add PosInf _ = PosInf"
| "js_add _ PosInf = PosInf"
| "js_add NegInf _ = NegInf"
| "js_add _ NegInf = NegInf"

fun js_mul :: "jsnum \<Rightarrow> jsnum \<Rightarrow> jsnum" where
  "js_mul NaN _ = NaN"
| "js_mul _ NaN = NaN"
| "js_mul (Num x) (Num y) = Num (x * y)"
| "js_mul (Num x) PosInf = (if x = 0 then NaN else if 0 < x then PosInf else NegInf)"
| "js_mul (Num x) NegInf = (if x = 0 then NaN else if 0 < x then NegInf else PosInf)"
| "js_mul PosInf (Num y) = (if y = 0 then NaN else if 0 < y then PosInf else NegInf)"
| "js_mul NegInf (Num y) = (if y = 0 then NaN else if 0 < y then NegInf else PosInf)"
| "js_mul PosInf PosInf = PosInf"
| "js_mul NegInf NegInf = PosInf"
| "js_mul PosInf NegInf = NegInf"
| "js_mul NegInf PosInf = NegInf"

text \<open>Division: \<^verbatim>\<open>0 / 0\<close> is \<^verbatim>\<open>NaN\<close>, and \<^verbatim>\<open>x / 0\<close> is an infinity of the sign of \<^verbatim>\<open>x\<close>.\<close>

fun js_div :: "jsnum \<Rightarrow> jsnum \<Rightarrow> jsnum" where
  "js_div NaN _ = NaN"
| "js_div _ NaN = NaN"
| "js_div (Num x) (Num y) =
     (if y = 0 then (if x = 0 then NaN else if 0 < x then PosInf else NegInf)
      else Num (x / y))"
| "js_div (Num x) PosInf = Num 0"
| "js_div (Num x) NegInf = Num 0"
| "js_div PosInf (Num y) = (if y < 0 then NegInf else PosInf)"
| "js_div NegInf (Num y) = (if y < 0 then PosInf else NegInf)"
| "js_div _ _ = NaN"

text \<open>The comparison \<^verbatim>\<open>a > b\<close>: false whenever an operand is \<^verbatim>\<open>NaN\<close>.\<close>

fun js_gt :: "jsnum \<Rightarrow> jsnum \<Rightarrow> bool" where
  "js_gt NaN _ = False"
| "js_gt _ NaN = False"
| "js_gt (Num x) (Num y) = (y < x)"
| "js_gt PosInf PosInf = False"
| "js_gt PosInf _ = True"
| "js_gt _ PosInf = False"
| "js_gt NegInf _ = False"
| "js_gt (Num x) NegInf = True"

subsection \<open>The finance state and the month's snapshot\<close>

record finance_state =
  cash :: real
  salary :: real
  expenses :: real
  inflation :: real
  investment :: real
  happiness :: real

text \<open>A snapshot holds the month, the action taken and the six fields of the state.\<close>

record snapshot = finance_state +
  month :: nat
  action :: "string option"

definition DEFAULT_STATE :: finance_state where
  "DEFAULT_STATE =
     \<lparr>cash = 10000, salary = 3000, expenses = 2500, inflation = 0.05, investment = 0,
      happiness = 100\<rparr>"

type_synonym 'g sampler = "real \<Rightarrow> real \<Rightarrow> 'g \<Rightarrow> real \<times> 'g"

subsection \<open>The economy step\<close>

text \<open>
  \<^verbatim>\<open>updateEconomy(simState)\<close>: the five assignments of the source in their order, each
  reading the fields as the assignments before it left them.
\<close>

definition updateEconomy :: "'g sampler \<Rightarrow> finance_state \<Rightarrow> 'g \<Rightarrow> finance_state \<times> 'g" where
  "updateEconomy randomNormal simState g =
     (let (shock, g) = randomNormal 0 0.01 g;
          simState = simState\<lparr>inflation := inflation simState + shock\<rparr>;
          simState = simState\<lparr>inflation := max (inflation simState) 0\<rparr>;
          simState = simState\<lparr>expenses := expenses simState * (1 + inflation simState)\<rparr>;
          (marketReturn, g) = randomNormal 0.05 0.1 g;
          simState = simState\<lparr>cash := cash simState + investment simState * marketReturn\<rparr>;
          simState = simState\<lparr>cash := cash simState + (salary simState - expenses simState)\<rparr>
      in (simState, g))"

subsection \<open>The actions\<close>

definition ACTIONS :: "string list" where
  "ACTIONS = [''WORK_MORE'', ''CUT_EXPENSES'', ''INVEST'', ''UPS KILL'', ''DO_NOTHING'']"

text \<open>
  \<^verbatim>\<open>applyAction(simState, action)\<close>: a \<^verbatim>\<open>switch\<close> over five string literals with no
  \<^verbatim>\<open>default\<close> branch, so any other value falls through and the function returns. The
  source spells the upskilling action \<^verbatim>\<open>"UPS KILL"\<close>.
\<close>

definition applyAction :: "finance_state \<Rightarrow> string option \<Rightarrow> finance_state" where
  "applyAction simState act =
     (if act = Some ''WORK_MORE'' then
        (let simState = simState\<lparr>salary := salary simState * 1.1\<rparr>;
             simState = simState\<lparr>happiness := happiness simState - 5\<rparr>
         in simState)
      else if act = Some ''CUT_EXPENSES'' then
        (let simState = simState\<lparr>expenses := expenses simState * 0.85\<rparr>;
             simState = simState\<lparr>happiness := happiness simState - 10\<rparr>
         in simState)
      else if act = Some ''INVEST'' then
        (let investAmount = cash simState * 0.3;
             simState = simState\<lparr>cash := cash simState - investAmount\<rparr>;
             simState = simState\<lparr>investment := investment simState + investAmount\<rparr>
         in simState)
      else if act = Some ''UPS KILL'' then
        (let simState = simState\<lparr>cash := cash simState - 1000\<rparr>;
             simState = simState\<lparr>salary := salary simState * 1.2\<rparr>
         in simState)
      else if act = Some ''DO_NOTHING'' then simState
      else simState)"

subsection \<open>The object store\<close>

text \<open>
  The functions of the source receive a reference and assign to the fields of the object
  behind it. The store is the list of the objects allocated so far and a reference is an
  index into it. \<^verbatim>\<open>JSON.parse(JSON.stringify(x))\<close> allocates a new object holding the field
  values of \<^verbatim>\<open>x\<close>.
\<close>

type_synonym ref = nat
type_synonym heap = "finance_state list"

definition json_clone :: "ref \<Rightarrow> heap \<Rightarrow> ref \<times> heap" where
  "json_clone r h = (length h, h @ [h ! r])"

definition applyAction_at :: "ref \<Rightarrow> string option \<Rightarrow> heap \<Rightarrow> heap" where
  "applyAction_at simState act h = h[simState := applyAction (h ! simState) act]"

definition updateEconomy_at :: "'g sampler \<Rightarrow> ref \<Rightarrow> heap \<Rightarrow> 'g \<Rightarrow> heap \<times> 'g" where
  "updateEconomy_at randomNormal simState h g =
     (let (s, g) = updateEconomy randomNormal (h ! simState) g in (h[simState := s], g))"

text \<open>
  The module allocates \<^verbatim>\<open>DEFAULT_STATE\<close> when it is loaded: it is the first object of the
  store, and \<open>module_heap\<close> is the store right after loading.
\<close>

definition DEFAULT_STATE_ref :: ref where
  "DEFAULT_STATE_ref = 0"

definition module_heap :: heap where
  "module_heap = [DEFAULT_STATE]"

subsection \<open>The survival forecaster\<close>

record forecast_result =
  survivalProbability :: jsnum
  expectedCash :: jsnum

text \<open>
  The inner loop of \<^verbatim>\<open>forecastSurvival\<close>, \<^verbatim>\<open>for (m = 0; m < FORECAST_MONTHS; m++)\<close>; the
  third argument is the number of iterations left. It leaves at once when the cash is not
  positive after a step.
\<close>

fun forecastMonths :: "'g sampler \<Rightarrow> ref \<Rightarrow> nat \<Rightarrow> heap \<Rightarrow> 'g \<Rightarrow> heap \<times> 'g" where
  "forecastMonths randomNormal simState 0 h g = (h, g)"
| "forecastMonths randomNormal simState (Suc n) h g =
     (let (h, g) = updateEconomy_at randomNormal simState h g
      in if cash (h ! simState) \<le> 0 then (h, g)
         else forecastMonths randomNormal simState n h g)"

text \<open>
  The outer loop, \<^verbatim>\<open>for (i = 0; i < MONTE_CARLO_RUNS; i++)\<close>, with the counter \<^verbatim>\<open>i\<close> and the
  two accumulators \<^verbatim>\<open>surviveCount\<close> and \<^verbatim>\<open>totalCash\<close>. The bound is any number: the loop
  goes on while the counter is below it.
\<close>

function forecastRuns ::
  "'g sampler \<Rightarrow> ref \<Rightarrow> string option \<Rightarrow> real \<Rightarrow> nat \<Rightarrow> nat \<Rightarrow> nat \<Rightarrow> real \<Rightarrow> heap \<Rightarrow> 'g
    \<Rightarrow> (nat \<times> real) \<times> heap \<times> 'g" where
  "forecastRuns randomNormal currentState act MONTE_CARLO_RUNS FORECAST_MONTHS i
       surviveCount totalCash h g =
     (if real i < MONTE_CARLO_RUNS then
        (let (simState, h) = json_clone currentState h;
             h = applyAction_at simState act h;
             (h, g) = forecastMonths randomNormal simState FORECAST_MONTHS h g;
             (surviveCount, totalCash) =
               (if 0 < cash (h ! simState)
                then (surviveCount + 1, totalCash + cash (h ! simState))
                else (surviveCount, totalCash))
         in forecastRuns randomNormal currentState act MONTE_CARLO_RUNS FORECAST_MONTHS (i + 1)
              surviveCount totalCash h g)
      else ((surviveCount, totalCash), h, g))"
  by pat_completeness auto
termination
proof (relation "measure (\<lambda>(rn, cur, act, runs, fm, i, sc, tc, h, g). nat \<lceil>runs\<rceil> - i)")
  show "wf (measure (\<lambda>(rn :: 'g sampler, cur :: ref, act :: string option, runs :: real,
      fm :: nat, i :: nat, sc :: nat, tc :: real, h :: heap, g :: 'g). nat \<lceil>runs\<rceil> - i))"
    by simp
next
  fix randomNormal :: "'g sampler" and currentState :: ref and act :: "string option"
    and MONTE_CARLO_RUNS :: real and FORECAST_MONTHS i surviveCount :: nat
    and totalCash :: real and h :: heap and g :: 'g
    and x xa y xb xc ya xd xe yb
  assume "real i < MONTE_CARLO_RUNS"
  then have "int i < \<lceil>MONTE_CARLO_RUNS\<rceil>"
    by (simp add: less_ceiling_iff)
  then show "((randomNormal, currentState, act, MONTE_CARLO_RUNS, FORECAST_MONTHS, i + 1, xe, yb,
       xc, ya),
      (randomNormal, currentState, act, MONTE_CARLO_RUNS, FORECAST_MONTHS, i, surviveCount,
       totalCash, h, g))
     \<in> measure (\<lambda>(rn, cur, act, runs, fm, i, sc, tc, h, g). nat \<lceil>runs\<rceil> - i)"
    by simp
qed

text \<open>
  \<^verbatim>\<open>forecastSurvival(currentState, action, MONTE_CARLO_RUNS, FORECAST_MONTHS)\<close>. The source
  has no check on its arguments and no \<^verbatim>\<open>throw\<close>; \<^verbatim>\<open>surviveCount || 1\<close> is \<^verbatim>\<open>1\<close> when the
  count is zero.
\<close>

definition forecastSurvival ::
  "'g sampler \<Rightarrow> ref \<Rightarrow> string option \<Rightarrow> real \<Rightarrow> nat \<Rightarrow> heap \<Rightarrow> 'g
    \<Rightarrow> forecast_result \<times> heap \<times> 'g" where
  "forecastSurvival randomNormal currentState act MONTE_CARLO_RUNS FORECAST_MONTHS h g =
     (let ((surviveCount, totalCash), h, g) =
            forecastRuns randomNormal currentState act MONTE_CARLO_RUNS FORECAST_MONTHS 0 0 0 h g
      in (\<lparr>survivalProbability =
             js_div (Num (real surviveCount)) (Num MONTE_CARLO_RUNS),
           expectedCash =
             js_div (Num totalCash)
               (Num (real (if surviveCount = 0 then 1 else surviveCount)))\<rparr>,
          h, g))"

subsection \<open>The utility and the selector\<close>

definition calculateUtility :: "forecast_result \<Rightarrow> jsnum" where
  "calculateUtility result =
     (let w1 = Num 0.6; w2 = Num 0.4
      in js_add (js_mul w1 (survivalProbability result))
           (js_mul w2 (js_div (expectedCash result) (Num 10000))))"

text \<open>
  The loop of \<^verbatim>\<open>chooseBestAction\<close> over the actions left, with \<^verbatim>\<open>bestAction\<close> and
  \<^verbatim>\<open>bestScore\<close> as accumulators. The forecast is called without a horizon, which is then
  the default of 6 months.
\<close>

fun chooseLoop ::
  "'g sampler \<Rightarrow> ref \<Rightarrow> real \<Rightarrow> string list \<Rightarrow> string option \<Rightarrow> jsnum \<Rightarrow> heap \<Rightarrow> 'g
    \<Rightarrow> (string option \<times> jsnum) \<times> heap \<times> 'g" where
  "chooseLoop randomNormal currentState monteCarloRuns [] bestAction bestScore h g =
     ((bestAction, bestScore), h, g)"
| "chooseLoop randomNormal currentState monteCarloRuns (act # actions) bestAction bestScore h g =
     (let (forecast, h, g) =
            forecastSurvival randomNormal currentState (Some act) monteCarloRuns 6 h g;
          utility = calculateUtility forecast;
          (bestAction, bestScore) =
            (if js_gt utility bestScore then (Some act, utility) else (bestAction, bestScore))
      in chooseLoop randomNormal currentState monteCarloRuns actions bestAction bestScore h g)"

text \<open>\<^verbatim>\<open>bestAction\<close> starts as \<^verbatim>\<open>null\<close> and \<^verbatim>\<open>bestScore\<close> as \<^verbatim>\<open>-Infinity\<close>.\<close>

definition chooseBestAction ::
  "'g sampler \<Rightarrow> ref \<Rightarrow> real \<Rightarrow> heap \<Rightarrow> 'g \<Rightarrow> string option \<times> heap \<times> 'g" where
  "chooseBestAction randomNormal currentState monteCarloRuns h g =
     (let ((bestAction, bestScore), h, g) =
            chooseLoop randomNormal currentState monteCarloRuns ACTIONS None NegInf h g
      in (bestAction, h, g))"

text \<open>
  The utilities that loop computes, in the order it computes them: the forecast of each
  action starts from the store and the generator the forecast before it left.
\<close>

fun forecastUtilities ::
  "'g sampler \<Rightarrow> ref \<Rightarrow> real \<Rightarrow> string list \<Rightarrow> heap \<Rightarrow> 'g \<Rightarrow> jsnum list" where
  "forecastUtilities randomNormal currentState monteCarloRuns [] h g = []"
| "forecastUtilities randomNormal currentState monteCarloRuns (act # actions) h g =
     (let (forecast, h, g) =
            forecastSurvival randomNormal currentState (Some act) monteCarloRuns 6 h g
      in calculateUtility forecast
           # forecastUtilities randomNormal currentState monteCarloRuns actions h g)"

subsection \<open>The simulation driver\<close>

text \<open>
  The loop of \<^verbatim>\<open>runSimulation\<close>, \<^verbatim>\<open>for (month = 1; month <= months; month++)\<close>: \<open>m\<close> is the
  month and the fifth argument the number of iterations left.
\<close>

fun simulateMonths ::
  "'g sampler \<Rightarrow> ref \<Rightarrow> real \<Rightarrow> nat \<Rightarrow> nat \<Rightarrow> snapshot list \<Rightarrow> heap \<Rightarrow> 'g
    \<Rightarrow> snapshot list \<times> heap \<times> 'g" where
  "simulateMonths randomNormal state monteCarloRuns m 0 history h g = (history, h, g)"
| "simulateMonths randomNormal state monteCarloRuns m (Suc n) history h g =
     (let (bestAction, h, g) = chooseBestAction randomNormal state monteCarloRuns h g;
          h = applyAction_at state bestAction h;
          (h, g) = updateEconomy_at randomNormal state h g;
          history = history @
            [\<lparr>cash = cash (h ! state), salary = salary (h ! state),
              expenses = expenses (h ! state), inflation = inflation (h ! state),
              investment = investment (h ! state), happiness = happiness (h ! state),
              month = m, action = bestAction\<rparr>]
      in if cash (h ! state) \<le> 0 then (history, h, g)
         else simulateMonths randomNormal state monteCarloRuns (m + 1) n history h g)"

text \<open>
  \<^verbatim>\<open>runSimulation({months, monteCarloRuns, initialState})\<close>: the state is a clone of
  \<^verbatim>\<open>initialState || DEFAULT_STATE\<close>.
\<close>

definition runSimulation ::
  "'g sampler \<Rightarrow> nat \<Rightarrow> real \<Rightarrow> ref option \<Rightarrow> heap \<Rightarrow> 'g \<Rightarrow> snapshot list \<times> heap \<times> 'g" where
  "runSimulation randomNormal months monteCarloRuns initialState h g =
     (let (state, h) =
            json_clone (case initialState of Some r \<Rightarrow> r | None \<Rightarrow> DEFAULT_STATE_ref) h
      in simulateMonths randomNormal state monteCarloRuns 1 months [] h g)"

subsection \<open>The trials as functions on the object\<close>

text \<open>
  What the inner loop of the forecast does to the one cell it works on, written on the
  object itself; \<open>forecastMonths_rollout\<close> below proves that \<open>forecastMonths\<close> is this
  function applied to the cell.
\<close>

fun rolloutMonths :: "'g sampler \<Rightarrow> nat \<Rightarrow> finance_state \<Rightarrow> 'g \<Rightarrow> finance_state \<times> 'g" where
  "rolloutMonths randomNormal 0 s g = (s, g)"
| "rolloutMonths randomNormal (Suc n) s g =
     (let (s, g) = updateEconomy randomNormal s g
      in if cash s \<le> 0 then (s, g) else rolloutMonths randomNormal n s g)"

text \<open>
  The trials as the specification words them: each of \<open>n\<close> trials takes the field values
  \<open>s\<close> of the caller's state, applies the action once and runs the months; the trials
  share nothing but the generator, which each hands to the next. The result is the list
  of the states the trials end in.
\<close>

fun trialOutcomes ::
  "'g sampler \<Rightarrow> finance_state \<Rightarrow> string option \<Rightarrow> nat \<Rightarrow> nat \<Rightarrow> 'g \<Rightarrow> finance_state list \<times> 'g" where
  "trialOutcomes randomNormal s act FORECAST_MONTHS 0 g = ([], g)"
| "trialOutcomes randomNormal s act FORECAST_MONTHS (Suc n) g =
     (let (s', g) = rolloutMonths randomNormal FORECAST_MONTHS (applyAction s act) g;
          (rest, g) = trialOutcomes randomNormal s act FORECAST_MONTHS n g
      in (s' # rest, g))"

text \<open>
  The loop of \<open>forecastRuns\<close> as a recursion on the number of iterations left;
  \<open>forecastRuns_trials\<close> below proves that the loop with bound \<open>runs\<close> and counter \<open>i\<close> is this
  one with \<open>nat \<lceil>runs\<rceil> - i\<close> iterations left.
\<close>

fun forecastTrials ::
  "'g sampler \<Rightarrow> ref \<Rightarrow> string option \<Rightarrow> nat \<Rightarrow> nat \<Rightarrow> nat \<Rightarrow> real \<Rightarrow> heap \<Rightarrow> 'g
    \<Rightarrow> (nat \<times> real) \<times> heap \<times> 'g" where
  "forecastTrials randomNormal currentState act FORECAST_MONTHS 0 surviveCount totalCash h g =
     ((surviveCount, totalCash), h, g)"
| "forecastTrials randomNormal currentState act FORECAST_MONTHS (Suc n) surviveCount totalCash h g =
     (let (simState, h) = json_clone currentState h;
          h = applyAction_at simState act h;
          (h, g) = forecastMonths randomNormal simState FORECAST_MONTHS h g;
          (surviveCount, totalCash) =
            (if 0 < cash (h ! simState)
             then (surviveCount + 1, totalCash + cash (h ! simState))
             else (surviveCount, totalCash))
      in forecastTrials randomNormal currentState act FORECAST_MONTHS n surviveCount totalCash h g)"

subsection \<open>The selection as a function of the utilities\<close>

text \<open>
  What the loop of \<^verbatim>\<open>chooseBestAction\<close> does with the utilities once they are computed:
  an action replaces the best one so far when its utility is greater (\<^verbatim>\<open>utility > bestScore\<close>).
  \<open>chooseLoop_pickBest\<close> below proves that the loop is this function on the utilities of
  \<open>forecastUtilities\<close>.
\<close>

fun pickBest :: "(string \<times> jsnum) list \<Rightarrow> string option \<Rightarrow> jsnum \<Rightarrow> string option \<times> jsnum" where
  "pickBest [] bestAction bestScore = (bestAction, bestScore)"
| "pickBest ((act, utility) # rest) bestAction bestScore =
     (if js_gt utility bestScore then pickBest rest (Some act) utility
      else pickBest rest bestAction bestScore)"

subsection \<open>A sampler for the scenarios\<close>

text \<open>A sampler with no variance: it returns its mean and leaves the generator as it is.\<close>

definition meanSampler :: "unit sampler" where
  "meanSampler mean std g = (mean, g)"

text \<open>A state that is bankrupt after one month under that sampler.\<close>

definition poorState :: finance_state where
  "poorState =
     \<lparr>cash = 100, salary = 0, expenses = 2500, inflation = 0.05, investment = 0,
      happiness = 100\<rparr>"

section \<open>Properties\<close>

text \<open>The equation of the loop \<open>forecastRuns\<close> is unfolded only where it is named.\<close>

declare forecastRuns.simps [simp del]

text \<open>The definitions a closed term of the model is evaluated with.\<close>

lemmas eval_rules =
  runSimulation_def json_clone_def chooseBestAction_def ACTIONS_def forecastSurvival_def
  calculateUtility_def updateEconomy_at_def applyAction_at_def updateEconomy_def
  applyAction_def meanSampler_def poorState_def module_heap_def DEFAULT_STATE_def
  DEFAULT_STATE_ref_def forecastRuns.simps eval_nat_numeral Let_def

subsection \<open>The economy step\<close>

lemma updateEconomy_fields:
  "fst (updateEconomy randomNormal s g) =
     s\<lparr>inflation := max (inflation s + fst (randomNormal 0 0.01 g)) 0,
       expenses := expenses s * (1 + max (inflation s + fst (randomNormal 0 0.01 g)) 0),
       cash := cash s
         + investment s * fst (randomNormal 0.05 0.1 (snd (randomNormal 0 0.01 g)))
         + (salary s - expenses s * (1 + max (inflation s + fst (randomNormal 0 0.01 g)) 0))\<rparr>"
  by (simp add: updateEconomy_def Let_def split_beta)

text \<open>
  C4. After one \<open>updateEconomy\<close>, whatever the inflation before and whatever the sampler
  draws, the inflation is not negative: it is the larger of zero and the old inflation
  plus the shock. The expenses of the same call are the old expenses scaled by one plus
  that new inflation, the value after the shock and the floor.
\<close>

theorem updateEconomy_inflation_floor:
  "0 \<le> inflation (fst (updateEconomy randomNormal s g)) \<and>
   inflation (fst (updateEconomy randomNormal s g)) =
     max (inflation s + fst (randomNormal 0 0.01 g)) 0 \<and>
   expenses (fst (updateEconomy randomNormal s g)) =
     expenses s * (1 + inflation (fst (updateEconomy randomNormal s g)))"
  by (simp add: updateEconomy_fields)

theorem updateEconomy_inflation_floor_witness:
  "0 \<le> inflation (fst (updateEconomy meanSampler (DEFAULT_STATE\<lparr>inflation := -1\<rparr>) ())) \<and>
   inflation (fst (updateEconomy meanSampler (DEFAULT_STATE\<lparr>inflation := -1\<rparr>) ())) = 0 \<and>
   expenses (fst (updateEconomy meanSampler (DEFAULT_STATE\<lparr>inflation := -1\<rparr>) ())) = 2500"
  using updateEconomy_inflation_floor [of meanSampler "DEFAULT_STATE\<lparr>inflation := -1\<rparr>" "()"]
  by (simp add: meanSampler_def DEFAULT_STATE_def)

text \<open>
  C7 (scenario C). With the sampler that returns its mean, one \<open>updateEconomy\<close> from
  inflation 0.05, expenses 2500, cash 10000, salary 3000 and investment 0 gives inflation
  0.05, expenses 2625 and cash 10375, and leaves the other fields as they were. The
  scenario names no happiness, so it is arbitrary here.
\<close>

theorem scenario_C_mean_sampler:
  "fst (updateEconomy meanSampler
      \<lparr>cash = 10000, salary = 3000, expenses = 2500, inflation = 0.05, investment = 0,
       happiness = hp\<rparr> ()) =
    \<lparr>cash = 10375, salary = 3000, expenses = 2625, inflation = 0.05, investment = 0,
     happiness = hp\<rparr>"
  by (simp add: updateEconomy_fields meanSampler_def)

theorem scenario_C_mean_sampler_witness:
  "inflation (fst (updateEconomy meanSampler DEFAULT_STATE ())) = 0.05 \<and>
   expenses (fst (updateEconomy meanSampler DEFAULT_STATE ())) = 2625 \<and>
   cash (fst (updateEconomy meanSampler DEFAULT_STATE ())) = 10375"
  using scenario_C_mean_sampler [of 100] by (simp add: DEFAULT_STATE_def)

subsection \<open>The actions\<close>

text \<open>
  C1, as the source has it: an action that is none of the five literals of the \<^verbatim>\<open>switch\<close>
  (\<^verbatim>\<open>null\<close> included) matches no case; \<open>applyAction\<close> returns with every field of the state
  as it was, and the store is unchanged. Nothing is raised: the source has no \<^verbatim>\<open>throw\<close>.
\<close>

theorem applyAction_unmatched_unchanged:
  "act \<notin> Some ` set ACTIONS \<Longrightarrow> applyAction s act = s \<and> applyAction_at r act h = h"
  by (auto simp: applyAction_def applyAction_at_def ACTIONS_def)

theorem applyAction_unmatched_unchanged_witness:
  "Some ''SELL_HOUSE'' \<notin> Some ` set ACTIONS \<and>
   applyAction DEFAULT_STATE (Some ''SELL_HOUSE'') = DEFAULT_STATE \<and>
   applyAction_at 0 (Some ''SELL_HOUSE'') module_heap = module_heap"
  using applyAction_unmatched_unchanged [of "Some ''SELL_HOUSE''" DEFAULT_STATE 0 module_heap]
  by (simp add: ACTIONS_def)

text \<open>
  The claim C1 itself fails: for the action \<^verbatim>\<open>"RETIRE"\<close>, outside the enumeration under
  either spelling of its fourth member, \<open>applyAction\<close> returns the state it was given.
\<close>

theorem applyAction_unknown_counterexample:
  "applyAction
     \<lparr>cash = 10000, salary = 3000, expenses = 2500, inflation = 0.05, investment = 0,
      happiness = 100\<rparr> (Some ''RETIRE'') =
     \<lparr>cash = 10000, salary = 3000, expenses = 2500, inflation = 0.05, investment = 0,
      happiness = 100\<rparr>"
  by (simp add: applyAction_def)

text \<open>
  C9, as the source has it: the economy step and every action but \<^verbatim>\<open>INVEST\<close> leave the
  investment as it is; \<^verbatim>\<open>INVEST\<close> adds 0.3 times the cash to it. So no operation lowers the
  investment of a state whose cash is not negative, and a state with cash and investment
  both not negative keeps an investment that is not negative.
\<close>

theorem investment_moved_only_by_INVEST:
  "(act \<noteq> Some ''INVEST'' \<longrightarrow> investment (applyAction s act) = investment s) \<and>
   investment (applyAction s (Some ''INVEST'')) = investment s + cash s * 0.3 \<and>
   investment (fst (updateEconomy randomNormal s g)) = investment s \<and>
   (0 \<le> cash s \<longrightarrow> investment s \<le> investment (applyAction s act)) \<and>
   (0 \<le> cash s \<and> 0 \<le> investment s \<longrightarrow> 0 \<le> investment (applyAction s act))"
  by (simp add: applyAction_def updateEconomy_fields Let_def)

theorem investment_moved_only_by_INVEST_witness:
  "Some ''WORK_MORE'' \<noteq> Some ''INVEST'' \<and>
   investment (applyAction DEFAULT_STATE (Some ''WORK_MORE'')) = 0 \<and>
   0 \<le> cash DEFAULT_STATE \<and> 0 \<le> investment DEFAULT_STATE \<and>
   investment (applyAction DEFAULT_STATE (Some ''INVEST'')) = 3000 \<and>
   investment (fst (updateEconomy meanSampler DEFAULT_STATE ())) = 0"
  using investment_moved_only_by_INVEST [of "Some ''WORK_MORE''" DEFAULT_STATE meanSampler "()"]
    investment_moved_only_by_INVEST [of "Some ''INVEST''" DEFAULT_STATE meanSampler "()"]
  by (simp add: DEFAULT_STATE_def)

text \<open>
  The claim C9 itself fails on a state whose cash is negative: \<^verbatim>\<open>INVEST\<close> takes the
  investment from 0 to -300.
\<close>

theorem investment_decreased_counterexample:
  "investment
     (applyAction
        \<lparr>cash = -1000, salary = 3000, expenses = 2500, inflation = 0.05, investment = 0,
         happiness = 100\<rparr> (Some ''INVEST'')) = -300"
  by (simp add: applyAction_def)

subsection \<open>The survival forecaster\<close>

lemma forecastMonths_rollout:
  "r < length h \<Longrightarrow>
   forecastMonths rn r n h g =
     (h[r := fst (rolloutMonths rn n (h ! r) g)], snd (rolloutMonths rn n (h ! r) g))"
proof (induction n arbitrary: h g)
  case 0
  then show ?case by simp
next
  case (Suc n)
  then show ?case
    by (simp add: updateEconomy_at_def split_beta Let_def)
qed

lemma forecastTrials_Suc:
  "forecastTrials rn cur act fm (Suc n) sc tc h g =
     (let s = fst (rolloutMonths rn fm (applyAction (h ! cur) act) g);
          g' = snd (rolloutMonths rn fm (applyAction (h ! cur) act) g)
      in forecastTrials rn cur act fm n
           (if 0 < cash s then sc + 1 else sc) (if 0 < cash s then tc + cash s else tc)
           (h @ [s]) g')"
  by (simp add: json_clone_def applyAction_at_def forecastMonths_rollout Let_def split_beta)

lemma forecastRuns_trials:
  "forecastRuns rn cur act runs fm i sc tc h g =
     forecastTrials rn cur act fm (nat \<lceil>runs\<rceil> - i) sc tc h g"
proof (induction "nat \<lceil>runs\<rceil> - i" arbitrary: i sc tc h g)
  case 0
  then have none: "nat \<lceil>runs\<rceil> - i = 0"
    by simp
  then have "nat \<lceil>runs\<rceil> \<le> i"
    by simp
  then have "\<lceil>runs\<rceil> \<le> int i"
    by linarith
  then have "runs \<le> of_int (int i)"
    by (simp only: ceiling_le_iff)
  then have "\<not> real i < runs"
    by simp
  then show ?case
    unfolding none by (simp add: forecastRuns.simps)
next
  case (Suc k)
  have left: "nat \<lceil>runs\<rceil> - i = Suc k" "k = nat \<lceil>runs\<rceil> - Suc i"
    using Suc.hyps(2) by simp_all
  then have "int i < \<lceil>runs\<rceil>"
    by linarith
  then have "of_int (int i) < runs"
    by (simp only: less_ceiling_iff)
  then have below: "real i < runs"
    by simp
  show ?case
    unfolding left(1)
    by (subst forecastRuns.simps) (simp add: below Suc.hyps(1) [OF left(2)] left(2) [symmetric] split_beta Let_def)
qed

lemma forecastTrials_outcomes:
  "cur < length h \<Longrightarrow>
   forecastTrials rn cur act fm n sc tc h g =
     ((sc + length (filter (\<lambda>s. 0 < cash s) (fst (trialOutcomes rn (h ! cur) act fm n g))),
       tc + sum_list (map cash (filter (\<lambda>s. 0 < cash s)
              (fst (trialOutcomes rn (h ! cur) act fm n g))))),
      h @ fst (trialOutcomes rn (h ! cur) act fm n g),
      snd (trialOutcomes rn (h ! cur) act fm n g))"
proof (induction n arbitrary: sc tc h g)
  case 0
  then show ?case by simp
next
  case (Suc n)
  let ?s = "fst (rolloutMonths rn fm (applyAction (h ! cur) act) g)"
  let ?g = "snd (rolloutMonths rn fm (applyAction (h ! cur) act) g)"
  have ref: "cur < length (h @ [?s])" and same: "(h @ [?s]) ! cur = h ! cur"
    using Suc.prems by (simp_all add: nth_append)
  show ?case
    by (simp add: forecastTrials_Suc Suc.IH [OF ref] same split_beta Let_def
        del: forecastTrials.simps)
qed

lemma length_trialOutcomes: "length (fst (trialOutcomes rn s act fm n g)) = n"
  by (induction n arbitrary: g) (simp_all add: split_beta)


text \<open>
  C2, as the source has it: with no runs the forecast raises nothing. It runs no trial,
  leaves the store and the generator as they are, and returns the survival probability
  \<^verbatim>\<open>0 / 0\<close>, which is \<^verbatim>\<open>NaN\<close>, and the expected cash \<^verbatim>\<open>0 / 1\<close>.
\<close>

theorem forecastSurvival_no_runs:
  "forecastSurvival randomNormal currentState act 0 FORECAST_MONTHS h g =
     (\<lparr>survivalProbability = NaN, expectedCash = Num 0\<rparr>, h, g)"
  by (simp add: forecastSurvival_def forecastRuns.simps)

theorem forecastSurvival_no_runs_witness:
  "forecastSurvival meanSampler 0 None 0 0 [poorState] () =
     (\<lparr>survivalProbability = NaN, expectedCash = Num 0\<rparr>, [poorState], ())"
  using forecastSurvival_no_runs [of meanSampler 0 None 0 "[poorState]" "()"] by simp

text \<open>
  The claim C2 itself fails: the call with \<^verbatim>\<open>runs = 0\<close> on the default state returns a
  result.
\<close>

theorem forecastSurvival_no_runs_counterexample:
  "forecastSurvival meanSampler 0 (Some ''INVEST'') 0 6
     [\<lparr>cash = 10000, salary = 3000, expenses = 2500, inflation = 0.05, investment = 0,
       happiness = 100\<rparr>] () =
     (\<lparr>survivalProbability = NaN, expectedCash = Num 0\<rparr>,
      [\<lparr>cash = 10000, salary = 3000, expenses = 2500, inflation = 0.05, investment = 0,
        happiness = 100\<rparr>], ())"
  by (simp add: forecastSurvival_def forecastRuns.simps)




text \<open>
  C8. A forecast is the trials of \<open>trialOutcomes\<close> on the field values of the caller's
  state: every trial starts from those values, whatever the trials before it did to
  their own objects, and only the generator passes from one trial to the next. The
  store the forecast returns is the caller's store, every object of it as it was and the
  state the forecast was given among them, followed by one new object per trial, which
  holds the state that trial ended in; the result is computed from these states alone.
\<close>

theorem forecastSurvival_frame:
  "currentState < length h \<Longrightarrow>
   (let outs = fst (trialOutcomes randomNormal (h ! currentState) act FORECAST_MONTHS
                      (nat \<lceil>MONTE_CARLO_RUNS\<rceil>) g);
        survivors = filter (\<lambda>s. 0 < cash s) outs
    in forecastSurvival randomNormal currentState act MONTE_CARLO_RUNS FORECAST_MONTHS h g =
         (\<lparr>survivalProbability =
             js_div (Num (real (length survivors))) (Num MONTE_CARLO_RUNS),
           expectedCash =
             js_div (Num (sum_list (map cash survivors)))
               (Num (real (if length survivors = 0 then 1 else length survivors)))\<rparr>,
          h @ outs,
          snd (trialOutcomes randomNormal (h ! currentState) act FORECAST_MONTHS
                 (nat \<lceil>MONTE_CARLO_RUNS\<rceil>) g))
       \<and> length outs = nat \<lceil>MONTE_CARLO_RUNS\<rceil>
       \<and> (h @ outs) ! currentState = h ! currentState)"
proof -
  assume ref: "currentState < length h"
  have "(h @ k) ! currentState = h ! currentState" for k
    using ref by (simp add: nth_append)
  then show ?thesis
    by (simp add: forecastSurvival_def forecastRuns_trials forecastTrials_outcomes [OF ref]
        length_trialOutcomes Let_def)
qed

theorem forecastSurvival_frame_witness:
  "0 < length module_heap \<and>
   forecastSurvival meanSampler 0 (Some ''UPS KILL'') 2 0 module_heap () =
     (\<lparr>survivalProbability = Num 1, expectedCash = Num 9000\<rparr>,
      [DEFAULT_STATE, DEFAULT_STATE\<lparr>cash := 9000, salary := 3600\<rparr>,
       DEFAULT_STATE\<lparr>cash := 9000, salary := 3600\<rparr>], ())"
proof -
  have ref: "0 < length module_heap"
    by (simp add: module_heap_def)
  have outs: "trialOutcomes meanSampler (module_heap ! 0) (Some ''UPS KILL'') 0 2 ()
      = ([DEFAULT_STATE\<lparr>cash := 9000, salary := 3600\<rparr>,
          DEFAULT_STATE\<lparr>cash := 9000, salary := 3600\<rparr>], ())"
    by (simp add: eval_rules)
  have store: "module_heap @ [DEFAULT_STATE\<lparr>cash := 9000, salary := 3600\<rparr>,
          DEFAULT_STATE\<lparr>cash := 9000, salary := 3600\<rparr>] =
      [DEFAULT_STATE, DEFAULT_STATE\<lparr>cash := 9000, salary := 3600\<rparr>,
       DEFAULT_STATE\<lparr>cash := 9000, salary := 3600\<rparr>]"
    by (simp add: module_heap_def)
  have "cash (DEFAULT_STATE\<lparr>cash := 9000, salary := 3600\<rparr>) = 9000"
    by simp
  with forecastSurvival_frame [OF ref, of meanSampler "Some ''UPS KILL''" 0 2 "()"]
  have "forecastSurvival meanSampler 0 (Some ''UPS KILL'') 2 0 module_heap () =
     (\<lparr>survivalProbability = Num 1, expectedCash = Num 9000\<rparr>,
      [DEFAULT_STATE, DEFAULT_STATE\<lparr>cash := 9000, salary := 3600\<rparr>,
       DEFAULT_STATE\<lparr>cash := 9000, salary := 3600\<rparr>], ())"
    by (simp add: outs store Let_def)
  with ref show ?thesis
    by blast
qed

subsection \<open>The selector\<close>

lemma chooseLoop_pickBest:
  "fst (chooseLoop rn cur runs actions b s h g) =
     pickBest (zip actions (forecastUtilities rn cur runs actions h g)) b s"
  by (induction actions arbitrary: b s h g) (simp_all add: split_beta Let_def)

lemma length_forecastUtilities:
  "length (forecastUtilities rn cur runs actions h g) = length actions"
  by (induction actions arbitrary: h g) (simp_all add: split_beta)

lemma forecastSurvival_numbers:
  "runs \<noteq> 0 \<Longrightarrow>
   \<exists>p c. fst (forecastSurvival rn cur act runs fm h g) =
     \<lparr>survivalProbability = Num p, expectedCash = Num c\<rparr>"
  by (simp add: forecastSurvival_def split_beta)

lemma calculateUtility_number:
  "runs \<noteq> 0 \<Longrightarrow> \<exists>x. calculateUtility (fst (forecastSurvival rn cur act runs fm h g)) = Num x"
  using forecastSurvival_numbers [of runs rn cur act fm h g]
  by (auto simp: calculateUtility_def)

lemma forecastUtilities_numbers:
  "runs \<noteq> 0 \<Longrightarrow> \<exists>us. forecastUtilities rn cur runs actions h g = map Num us"
proof (induction actions arbitrary: h g)
  case Nil
  then show ?case by simp
next
  case (Cons act actions)
  let ?f = "forecastSurvival rn cur (Some act) runs 6 h g"
  obtain x where x: "calculateUtility (fst ?f) = Num x"
    using calculateUtility_number [OF Cons.prems, of rn cur "Some act" 6 h g] by blast
  obtain us where us:
    "forecastUtilities rn cur runs actions (fst (snd ?f)) (snd (snd ?f)) = map Num us"
    using Cons.IH [OF Cons.prems, of "fst (snd ?f)" "snd (snd ?f)"] by blast
  show ?case
    by (rule exI [of _ "x # us"]) (simp add: split_beta x us)
qed

lemma forecastUtilities_no_runs:
  "forecastUtilities rn cur 0 actions h g = replicate (length actions) NaN"
  by (induction actions arbitrary: h g)
    (simp_all add: forecastSurvival_def calculateUtility_def forecastRuns.simps)

lemma js_gt_Num_trans: "js_gt (Num x) (Num r) \<Longrightarrow> js_gt (Num r) s \<Longrightarrow> js_gt (Num x) s"
  by (cases s) auto

lemma js_gt_Num_between: "\<not> js_gt (Num r) s \<Longrightarrow> js_gt (Num x) s \<Longrightarrow> r < x"
  by (cases s) auto

lemma pickBest_NaN:
  "pickBest (zip as (replicate (length as) NaN)) b s = (b, s)"
  by (induction as) simp_all

lemma pickBest_first_max:
  "length as = length rs \<Longrightarrow>
   (pickBest (zip as (map Num rs)) b s = (b, s) \<and> (\<forall>r\<in>set rs. \<not> js_gt (Num r) s)) \<or>
   (\<exists>i<length rs. pickBest (zip as (map Num rs)) b s = (Some (as ! i), Num (rs ! i)) \<and>
      js_gt (Num (rs ! i)) s \<and> (\<forall>j<i. rs ! j < rs ! i) \<and> (\<forall>j<length rs. rs ! j \<le> rs ! i))"
proof (induction as rs arbitrary: b s rule: list_induct2)
  case Nil
  then show ?case by simp
next
  case (Cons a as r rs)
  show ?case
  proof (cases "js_gt (Num r) s")
    case True
    from Cons.IH [of "Some a" "Num r"] show ?thesis
    proof
      assume "pickBest (zip as (map Num rs)) (Some a) (Num r) = (Some a, Num r) \<and>
        (\<forall>r'\<in>set rs. \<not> js_gt (Num r') (Num r))"
      then have "pickBest (zip (a # as) (map Num (r # rs))) b s = (Some ((a # as) ! 0), Num ((r # rs) ! 0))"
        and "\<forall>j<length (r # rs). (r # rs) ! j \<le> (r # rs) ! 0"
        using True by (auto simp: nth_Cons' not_less)
      with True show ?thesis
        by (intro disjI2 exI [of _ 0]) simp
    next
      assume "\<exists>i<length rs. pickBest (zip as (map Num rs)) (Some a) (Num r) = (Some (as ! i), Num (rs ! i)) \<and>
        js_gt (Num (rs ! i)) (Num r) \<and> (\<forall>j<i. rs ! j < rs ! i) \<and> (\<forall>j<length rs. rs ! j \<le> rs ! i)"
      then obtain i where i: "i < length rs"
        "pickBest (zip as (map Num rs)) (Some a) (Num r) = (Some (as ! i), Num (rs ! i))"
        "js_gt (Num (rs ! i)) (Num r)" "\<forall>j<i. rs ! j < rs ! i" "\<forall>j<length rs. rs ! j \<le> rs ! i"
        by blast
      have "js_gt (Num (rs ! i)) s"
        using i(3) True by (rule js_gt_Num_trans)
      moreover have "\<forall>j<Suc i. (r # rs) ! j < rs ! i" "\<forall>j<length (r # rs). (r # rs) ! j \<le> rs ! i"
        using i(3-5) by (auto simp: nth_Cons' less_Suc_eq_0_disj)
      ultimately show ?thesis
        using i(1,2) True by (intro disjI2 exI [of _ "Suc i"]) simp
    qed
  next
    case False
    from Cons.IH [of b s] show ?thesis
    proof
      assume "pickBest (zip as (map Num rs)) b s = (b, s) \<and> (\<forall>r'\<in>set rs. \<not> js_gt (Num r') s)"
      with False show ?thesis
        by simp
    next
      assume "\<exists>i<length rs. pickBest (zip as (map Num rs)) b s = (Some (as ! i), Num (rs ! i)) \<and>
        js_gt (Num (rs ! i)) s \<and> (\<forall>j<i. rs ! j < rs ! i) \<and> (\<forall>j<length rs. rs ! j \<le> rs ! i)"
      then obtain i where i: "i < length rs"
        "pickBest (zip as (map Num rs)) b s = (Some (as ! i), Num (rs ! i))"
        "js_gt (Num (rs ! i)) s" "\<forall>j<i. rs ! j < rs ! i" "\<forall>j<length rs. rs ! j \<le> rs ! i"
        by blast
      have "r < rs ! i"
        using False i(3) by (rule js_gt_Num_between)
      then have "\<forall>j<Suc i. (r # rs) ! j < rs ! i" "\<forall>j<length (r # rs). (r # rs) ! j \<le> rs ! i"
        using i(4,5) by (auto simp: nth_Cons' less_Suc_eq_0_disj)
      then show ?thesis
        using i(1-3) False by (intro disjI2 exI [of _ "Suc i"]) simp
    qed
  qed
qed


lemma chooseBestAction_pickBest:
  "fst (chooseBestAction rn cur runs h g) =
     fst (pickBest (zip ACTIONS (forecastUtilities rn cur runs ACTIONS h g)) None NegInf)"
  using chooseLoop_pickBest [of rn cur runs ACTIONS None NegInf h g]
  by (simp add: chooseBestAction_def split_beta)

lemma chooseBestAction_numbers:
  assumes "runs \<noteq> 0"
  shows "\<exists>us i. forecastUtilities rn cur runs ACTIONS h g = map Num us \<and>
    length us = length ACTIONS \<and> i < length ACTIONS \<and>
    fst (chooseBestAction rn cur runs h g) = Some (ACTIONS ! i) \<and>
    (\<forall>j<i. us ! j < us ! i) \<and> (\<forall>j<length ACTIONS. us ! j \<le> us ! i)"
proof -
  obtain us where us: "forecastUtilities rn cur runs ACTIONS h g = map Num us"
    using forecastUtilities_numbers [OF assms, of rn cur ACTIONS h g] by blast
  have len: "length ACTIONS = length us"
    using length_forecastUtilities [of rn cur runs ACTIONS h g] by (simp add: us)
  have "us \<noteq> []"
    using len by (auto simp: ACTIONS_def)
  then have "\<not> (\<forall>r\<in>set us. \<not> js_gt (Num r) NegInf)"
    by (cases us) auto
  with pickBest_first_max [OF len, of None NegInf] obtain i where i: "i < length us"
    "pickBest (zip ACTIONS (map Num us)) None NegInf = (Some (ACTIONS ! i), Num (us ! i))"
    "\<forall>j<i. us ! j < us ! i" "\<forall>j<length us. us ! j \<le> us ! i"
    by blast
  show ?thesis
    using i len by (intro exI [of _ us] exI [of _ i]) (simp add: us chooseBestAction_pickBest)
qed

text \<open>
  C6. \<open>chooseBestAction\<close> goes through the actions in the order \<^verbatim>\<open>WORK_MORE\<close>,
  \<^verbatim>\<open>CUT_EXPENSES\<close>, \<^verbatim>\<open>INVEST\<close>, upskilling (spelled \<^verbatim>\<open>"UPS KILL"\<close> in the source),
  \<^verbatim>\<open>DO_NOTHING\<close>: \<open>forecastUtilities\<close> is the list of the utilities in that order, each
  forecast continuing from the store and generator of the one before. The action returned
  has a utility that no other action exceeds and that exceeds the utility of every action
  before it; so among actions of equal utility it is the first. With no runs every utility
  is \<^verbatim>\<open>NaN\<close>, no comparison succeeds and the result is \<^verbatim>\<open>null\<close>.
\<close>

theorem chooseBestAction_first_greatest:
  "ACTIONS = [''WORK_MORE'', ''CUT_EXPENSES'', ''INVEST'', ''UPS KILL'', ''DO_NOTHING''] \<and>
   (monteCarloRuns = 0 \<and>
      fst (chooseBestAction randomNormal currentState monteCarloRuns h g) = None \<or>
    (\<exists>i<length ACTIONS.
       fst (chooseBestAction randomNormal currentState monteCarloRuns h g) = Some (ACTIONS ! i) \<and>
       (\<forall>j<length ACTIONS.
          \<not> js_gt (forecastUtilities randomNormal currentState monteCarloRuns ACTIONS h g ! j)
                  (forecastUtilities randomNormal currentState monteCarloRuns ACTIONS h g ! i)) \<and>
       (\<forall>j<i.
          js_gt (forecastUtilities randomNormal currentState monteCarloRuns ACTIONS h g ! i)
                (forecastUtilities randomNormal currentState monteCarloRuns ACTIONS h g ! j)) \<and>
       (\<forall>j<length ACTIONS.
          forecastUtilities randomNormal currentState monteCarloRuns ACTIONS h g ! j =
          forecastUtilities randomNormal currentState monteCarloRuns ACTIONS h g ! i
          \<longrightarrow> i \<le> j)))"
proof (cases "monteCarloRuns = 0")
  case True
  have "fst (chooseBestAction randomNormal currentState 0 h g) = None"
    by (simp add: chooseBestAction_pickBest forecastUtilities_no_runs pickBest_NaN)
  with True show ?thesis
    by (simp add: ACTIONS_def)
next
  case False
  from chooseBestAction_numbers [OF this, of randomNormal currentState h g]
  obtain us i where us:
    "forecastUtilities randomNormal currentState monteCarloRuns ACTIONS h g = map Num us"
    "length us = length ACTIONS" "i < length ACTIONS"
    "fst (chooseBestAction randomNormal currentState monteCarloRuns h g) = Some (ACTIONS ! i)"
    "\<forall>j<i. us ! j < us ! i" "\<forall>j<length ACTIONS. us ! j \<le> us ! i"
    by blast
  have "\<forall>j<length ACTIONS. \<not> js_gt (map Num us ! j) (map Num us ! i)"
    using us(2,3,6) by (simp add: not_less)
  moreover have "\<forall>j<i. js_gt (map Num us ! i) (map Num us ! j)"
    using us(2,3,5) by simp
  moreover have "\<forall>j<length ACTIONS. map Num us ! j = map Num us ! i \<longrightarrow> i \<le> j"
  proof (intro allI impI)
    fix j
    assume "j < length ACTIONS" "map Num us ! j = map Num us ! i"
    then have "us ! j = us ! i"
      using us(2,3) by simp
    with us(5) show "i \<le> j"
      by (metis not_less order_less_irrefl)
  qed
  ultimately show ?thesis
    using us(3,4) unfolding us(1)
    by (intro conjI disjI2 exI [of _ i]) (simp_all add: ACTIONS_def)
qed

theorem chooseBestAction_first_greatest_witness:
  "forecastUtilities meanSampler 0 1 ACTIONS [poorState] () = replicate 5 (Num 0) \<and>
   fst (chooseBestAction meanSampler 0 1 [poorState] ()) = Some ''WORK_MORE''"
proof -
  let ?U = "forecastUtilities meanSampler 0 1 ACTIONS [poorState] ()"
  have tie: "?U = replicate 5 (Num 0)"
    by (simp add: eval_rules)
  have "(1::real) \<noteq> 0"
    by simp
  with chooseBestAction_first_greatest [of 1 meanSampler 0 "[poorState]" "()"]
  obtain i where i: "i < length ACTIONS"
    "fst (chooseBestAction meanSampler 0 1 [poorState] ()) = Some (ACTIONS ! i)"
    "\<forall>j<length ACTIONS. ?U ! j = ?U ! i \<longrightarrow> i \<le> j"
    by blast
  have five: "length ACTIONS = 5"
    by (simp add: ACTIONS_def)
  have "?U ! 0 = ?U ! i"
    unfolding tie using i(1) by (simp add: five)
  moreover have "0 < length ACTIONS"
    by (simp add: five)
  ultimately have "i \<le> 0"
    using i(3) by blast
  then have "ACTIONS ! i = ''WORK_MORE''"
    by (simp add: ACTIONS_def)
  with i(2) tie show ?thesis
    by simp
qed

text \<open>
  C10. With a positive number of runs, one or more among them, every utility the
  selector computes is a number, greater
  than the initial \<^verbatim>\<open>-Infinity\<close>; the first candidate replaces the initial \<^verbatim>\<open>null\<close>, and the
  action returned is one of the five of \<open>ACTIONS\<close>, never \<^verbatim>\<open>null\<close>.
\<close>

theorem chooseBestAction_never_null:
  "0 < monteCarloRuns \<Longrightarrow>
   (\<exists>a\<in>set ACTIONS. fst (chooseBestAction randomNormal currentState monteCarloRuns h g) = Some a) \<and>
   (\<exists>us. forecastUtilities randomNormal currentState monteCarloRuns ACTIONS h g = map Num us \<and>
      length us = length ACTIONS) \<and>
   (\<forall>u\<in>set (forecastUtilities randomNormal currentState monteCarloRuns ACTIONS h g).
      js_gt u NegInf) \<and>
   fst (fst (chooseLoop randomNormal currentState monteCarloRuns [''WORK_MORE''] None NegInf h g))
     = Some ''WORK_MORE''"
proof -
  assume "0 < monteCarloRuns"
  then have runs: "monteCarloRuns \<noteq> 0"
    by simp
  from chooseBestAction_numbers [OF this, of randomNormal currentState h g]
  obtain us i where us:
    "forecastUtilities randomNormal currentState monteCarloRuns ACTIONS h g = map Num us"
    "length us = length ACTIONS" "i < length ACTIONS"
    "fst (chooseBestAction randomNormal currentState monteCarloRuns h g) = Some (ACTIONS ! i)"
    by blast
  have "ACTIONS ! i \<in> set ACTIONS"
    using us(3) by (rule nth_mem)
  moreover have "\<forall>u\<in>set (map Num us). js_gt u NegInf"
    by auto
  moreover obtain x where
    "calculateUtility (fst (forecastSurvival randomNormal currentState (Some ''WORK_MORE'')
        monteCarloRuns 6 h g)) = Num x"
    using calculateUtility_number [OF runs, of randomNormal currentState "Some ''WORK_MORE''" 6 h g]
    by blast
  then have "fst (fst (chooseLoop randomNormal currentState monteCarloRuns [''WORK_MORE'']
      None NegInf h g)) = Some ''WORK_MORE''"
    by (simp add: split_beta)
  ultimately show ?thesis
    using us(1,2,4) by auto
qed

theorem chooseBestAction_never_null_witness:
  "0 < (1::real) \<and> Some ''CUT_EXPENSES'' \<in> Some ` set ACTIONS \<and>
   fst (chooseBestAction meanSampler 0 1 module_heap ()) = Some ''CUT_EXPENSES''"
proof -
  have "fst (chooseBestAction meanSampler 0 1 module_heap ()) = Some ''CUT_EXPENSES''"
    by (simp add: eval_rules)
  with chooseBestAction_never_null [of 1 meanSampler 0 module_heap "()"]
  show ?thesis
    by (simp add: ACTIONS_def)
qed

subsection \<open>The simulation driver\<close>

lemma simulateMonths_history:
  "\<forall>s\<in>set history. 0 < cash s \<Longrightarrow>
   length (fst (simulateMonths rn st runs m n history h g)) \<le> length history + n \<and>
   (\<forall>s\<in>set (butlast (fst (simulateMonths rn st runs m n history h g))). 0 < cash s)"
proof (induction n arbitrary: m history h g)
  case 0
  then show ?case by (auto dest: in_set_butlastD)
next
  case (Suc n)
  obtain bestAction h1 g1 where choose: "chooseBestAction rn st runs h g = (bestAction, h1, g1)"
    by (cases "chooseBestAction rn st runs h g") auto
  obtain h2 g2 where step: "updateEconomy_at rn st (applyAction_at st bestAction h1) g1 = (h2, g2)"
    by (cases "updateEconomy_at rn st (applyAction_at st bestAction h1) g1") auto
  let ?snap = "\<lparr>cash = cash (h2 ! st), salary = salary (h2 ! st),
              expenses = expenses (h2 ! st), inflation = inflation (h2 ! st),
              investment = investment (h2 ! st), happiness = happiness (h2 ! st),
              month = m, action = bestAction\<rparr>"
  show ?case
  proof (cases "cash (h2 ! st) \<le> 0")
    case True
    then show ?thesis
      using Suc.prems by (simp add: choose step)
  next
    case False
    then have "\<forall>s\<in>set (history @ [?snap]). 0 < cash s"
      using Suc.prems by auto
    from Suc.IH [OF this, of "m + 1" h2 g2] False show ?thesis
      by (simp add: choose step)
  qed
qed

text \<open>
  C5. The history of \<open>runSimulation\<close> has at most \<open>months\<close> snapshots, and a snapshot
  whose cash is not positive is the last one.
\<close>

theorem runSimulation_history:
  "length (fst (runSimulation randomNormal months monteCarloRuns initialState h g)) \<le> months \<and>
   (\<forall>i < length (fst (runSimulation randomNormal months monteCarloRuns initialState h g)).
      cash (fst (runSimulation randomNormal months monteCarloRuns initialState h g) ! i) \<le> 0
      \<longrightarrow> i = length (fst (runSimulation randomNormal months monteCarloRuns initialState h g)) - 1)"
proof -
  let ?hist = "fst (runSimulation randomNormal months monteCarloRuns initialState h g)"
  have len: "length ?hist \<le> months" and pos: "\<forall>s\<in>set (butlast ?hist). 0 < cash s"
    using simulateMonths_history [of "[]" randomNormal
        "fst (json_clone (case initialState of Some r \<Rightarrow> r | None \<Rightarrow> DEFAULT_STATE_ref) h)"
        monteCarloRuns 1 months
        "snd (json_clone (case initialState of Some r \<Rightarrow> r | None \<Rightarrow> DEFAULT_STATE_ref) h)" g]
    by (simp_all add: runSimulation_def split_beta)
  have "i = length ?hist - 1" if "i < length ?hist" "cash (?hist ! i) \<le> 0" for i
  proof (rule ccontr)
    assume "i \<noteq> length ?hist - 1"
    with that(1) have "i < length (butlast ?hist)"
      by simp
    then have "butlast ?hist ! i \<in> set (butlast ?hist)" and "butlast ?hist ! i = ?hist ! i"
      by (rule nth_mem, rule nth_butlast)
    with pos that(2) show False
      by force
  qed
  with len show ?thesis
    by blast
qed

theorem runSimulation_history_witness:
  "length (fst (runSimulation meanSampler 3 1 (Some 0) [poorState] ())) = 1 \<and>
   length (fst (runSimulation meanSampler 3 1 (Some 0) [poorState] ())) \<le> 3 \<and>
   cash (fst (runSimulation meanSampler 3 1 (Some 0) [poorState] ()) ! 0) = -2525 \<and>
   (0::nat) = length (fst (runSimulation meanSampler 3 1 (Some 0) [poorState] ())) - 1"
proof -
  have "fst (runSimulation meanSampler 3 1 (Some 0) [poorState] ()) =
      [\<lparr>cash = -2525, salary = 0, expenses = 2625, inflation = 0.05, investment = 0,
        happiness = 95, month = 1, action = Some ''WORK_MORE''\<rparr>]"
    by (simp add: eval_rules)
  with runSimulation_history [of meanSampler 3 1 "Some 0" "[poorState]" "()"]
  show ?thesis
    by simp
qed

end
